theory Spec2Isabelle
  imports Main "HOL-Library.Sublist"
begin

section \<open>Data model of the agent package\<close>

text \<open>
  A \<open>models.Record\<close> is an opaque envelope; it is identified here by the URN of the
  asset it carries. A plugin configuration (\<open>map[string]interface{}\<close>) is a list of
  key/value pairs.
\<close>

type_synonym Record = string
type_synonym config = "(string \<times> string) list"

text \<open>
  Go errors. \<open>New s\<close> is \<open>errors.New(s)\<close> and \<open>fmt.Errorf("%s", s)\<close>;
  \<open>Wrap e msg\<close> is \<open>errors.Wrap(e, msg)\<close> (and \<open>errors.Wrapf\<close> after formatting);
  \<open>RetryError e\<close> is \<open>plugins.NewRetryError(e)\<close>.
\<close>

datatype error = New string | Wrap error string | RetryError error

text \<open>The text of an error (\<open>Error()\<close>): a wrapped error prints its message, a colon and
  the text of its cause.\<close>

fun errText :: "error \<Rightarrow> string" where
  "errText (New s) = s"
| "errText (Wrap e msg) = msg @ '': '' @ errText e"
| "errText (RetryError e) = errText e"

subsection \<open>Panic payloads\<close>

text \<open>
  The value given to \<open>panic\<close>: nil, a string, an error or an integer. \<open>recover\<close> returns
  the payload of the panic, which is nil after \<open>panic(nil)\<close> (Go before 1.21): the handler's
  test \<open>r != nil\<close> is then false.
\<close>

datatype payload = PNil | PString string | PError error | PInt int

fun recover :: "payload \<Rightarrow> payload option" where
  "recover PNil = None"
| "recover v = Some v"

text \<open>Decimal digits of a number, as \<open>fmt\<close> prints an integer.\<close>

definition digit :: "nat \<Rightarrow> char" where
  "digit n = ''0123456789'' ! n"

fun showNat :: "nat \<Rightarrow> string" where
  "showNat n = (if n < 10 then [digit n] else showNat (n div 10) @ [digit (n mod 10)])"

declare showNat.simps [simp del]

definition showInt :: "int \<Rightarrow> string" where
  "showInt i = (if i < 0 then ''-'' @ showNat (nat (- i)) else showNat (nat i))"


fun Errorf :: "payload \<Rightarrow> error" where
  "Errorf PNil = New ''%!s(<nil>)''"
| "Errorf (PString s) = New s"
| "Errorf (PError e) = New (errText e)"
| "Errorf (PInt i) = New (''%!s(int='' @ showInt i @ '')'')"

text \<open>Modelled from the spec: the constants \<open>plugins.PluginTypeExtractor\<close>,
  \<open>plugins.PluginTypeProcessor\<close> and \<open>plugins.PluginTypeSink\<close>, which name the three
  plugin roles; their declaration is not among the sources.\<close>

datatype PluginType = PluginTypeExtractor | PluginTypeProcessor | PluginTypeSink

fun typeString :: "PluginType \<Rightarrow> string" where
  "typeString PluginTypeExtractor = ''extractor''"
| "typeString PluginTypeProcessor = ''processor''"
| "typeString PluginTypeSink = ''sink''"

subsection \<open>Plugins\<close>

text \<open>
  What \<open>Extract\<close> does, seen from the agent: it pushes a sequence of records through
  \<open>emit\<close> and then either returns (nil or an error) or panics with a payload.
\<close>

datatype extract_end = Returns "error option" | Panics payload

record Extractor =
  ext_Validate :: "config \<Rightarrow> error option"
  ext_Init :: "config \<Rightarrow> error option"
  ext_Extract :: "config \<Rightarrow> Record list \<times> extract_end"

datatype process_result = Processed Record | ProcessFails error | ProcessPanics string

record Processor =
  proc_Validate :: "config \<Rightarrow> error option"
  proc_Init :: "config \<Rightarrow> error option"
  proc_Process :: "Record \<Rightarrow> process_result"

text \<open>\<open>snk_Sink n batch\<close> is the result of the call of \<open>Sink\<close> on \<open>batch\<close> that follows
  \<open>n\<close> earlier calls on the same batch (a sink may fail first and succeed later).\<close>

record Syncer =
  snk_Validate :: "config \<Rightarrow> error option"
  snk_Init :: "config \<Rightarrow> error option"
  snk_Sink :: "nat \<Rightarrow> Record list \<Rightarrow> error option"
  snk_Close :: "error option"

text \<open>A factory is used through \<open>Get\<close> only: a name gives a plugin or an error.\<close>

type_synonym 'p Factory = "string \<Rightarrow> error + 'p"

subsection \<open>Recipes and runs\<close>

record SourceRecipe =
  src_Type :: string
  src_Config :: config

record ProcessorRecipe =
  pr_Name :: string
  pr_Config :: config

record SinkRecipe =
  sr_Name :: string
  sr_Config :: config

record Recipe =
  rcp_Name :: string
  Source :: SourceRecipe
  Processors :: "ProcessorRecipe list"
  Sinks :: "SinkRecipe list"

record Run =
  run_Recipe :: Recipe
  Error :: "error option"
  DurationInMs :: int
  RecordCount :: nat
  Success :: bool

text \<open>The zero value of \<open>Run\<close> with its recipe set: the named result \<open>run\<close> after
  \<open>run.Recipe = recipe\<close>.\<close>

definition newRun :: "Recipe \<Rightarrow> Run" where
  "newRun recipe =
     \<lparr>run_Recipe = recipe, Error = None, DurationInMs = 0, RecordCount = 0, Success = False\<rparr>"

subsection \<open>Observable effects\<close>

datatype level = Info | Warn | Err

datatype event =
    Init PluginType string
  | Extract string
  | Emit Record
  | SinkCall string "Record list"
  | CloseSink string
  | Log level string
  | RecordRun Run

record retrier =
  maxRetries :: nat
  initialInterval :: nat

record Agent =
  extractorFactory :: "Extractor Factory"
  processorFactory :: "Processor Factory"
  sinkFactory :: "Syncer Factory"
  retrier :: retrier
  stopOnSinkError :: bool
  timerFn :: "unit \<Rightarrow> unit \<Rightarrow> int"

section \<open>Validate\<close>

definition Wrapf_invalid :: "error \<Rightarrow> string \<Rightarrow> PluginType \<Rightarrow> error" where
  "Wrapf_invalid e name role =
     Wrap e (''invalid config for '' @ name @ '' ('' @ typeString role @ '')'')"

fun validateSinks :: "Agent \<Rightarrow> Recipe \<Rightarrow> error list \<Rightarrow> SinkRecipe list \<Rightarrow> error list" where
  "validateSinks r rcp errs [] = errs"
| "validateSinks r rcp errs (s # ss) =
     (case sinkFactory r (sr_Name s) of
        Inl e \<Rightarrow>
          validateSinks r rcp
            (errs @ [Wrapf_invalid e (src_Type (Source rcp)) PluginTypeExtractor]) ss
      | Inr sink \<Rightarrow>
          (case snk_Validate sink (sr_Config s) of
             Some e \<Rightarrow>
               validateSinks r rcp (errs @ [Wrapf_invalid e (sr_Name s) PluginTypeSink]) ss
           | None \<Rightarrow> validateSinks r rcp errs ss))"

fun validateProcessors ::
  "Agent \<Rightarrow> Recipe \<Rightarrow> error list \<Rightarrow> ProcessorRecipe list \<Rightarrow> error list" where
  "validateProcessors r rcp errs [] = errs"
| "validateProcessors r rcp errs (p # ps) =
     (case processorFactory r (pr_Name p) of
        Inl e \<Rightarrow>
          validateProcessors r rcp
            (errs @ [Wrapf_invalid e (src_Type (Source rcp)) PluginTypeExtractor]) ps
      | Inr procc \<Rightarrow>
          (case proc_Validate procc (pr_Config p) of
             Some e \<Rightarrow>
               validateProcessors r rcp
                 (errs @ [Wrapf_invalid e (pr_Name p) PluginTypeProcessor]) ps
           | None \<Rightarrow> validateProcessors r rcp errs ps))"

definition validateSource :: "Agent \<Rightarrow> Recipe \<Rightarrow> error list" where
  "validateSource r rcp =
     (case extractorFactory r (src_Type (Source rcp)) of
        Inl e \<Rightarrow> [Wrapf_invalid e (src_Type (Source rcp)) PluginTypeExtractor]
      | Inr ext \<Rightarrow>
          (case ext_Validate ext (src_Config (Source rcp)) of
             Some e \<Rightarrow> [Wrapf_invalid e (src_Type (Source rcp)) PluginTypeExtractor]
           | None \<Rightarrow> []))"

definition Validate :: "Agent \<Rightarrow> Recipe \<Rightarrow> error list" where
  "Validate r rcp =
     validateProcessors r rcp
       (validateSinks r rcp (validateSource r rcp) (Sinks rcp)) (Processors rcp)"


section \<open>The stream\<close>

text \<open>
  A middleware is a closure \<open>func(src Record) (Record, error)\<close>. The only variable that a
  closure of the agent writes is the local \<open>recordCount\<close> of \<open>Run\<close>, so a middleware
  takes the counter and returns it with its result. A middleware that panics gives
  \<open>MwPanic\<close>. A subscriber's batch handler and a close hook return the effects they have.
\<close>

datatype mw_result = MwOk Record | MwErr error | MwPanic string

type_synonym streamMiddleware = "Record \<Rightarrow> nat \<Rightarrow> mw_result \<times> nat"

record subscriber =
  callback :: "Record list \<Rightarrow> event list \<times> error option"
  batchSize :: nat
  batch :: "Record list"

record stream =
  middlewares :: "streamMiddleware list"
  subscribers :: "subscriber list"
  onCloses :: "(unit \<Rightarrow> event list) list"
  closed :: bool
  terminalErr :: "error option"

text \<open>Modelled from the spec: the stream type and its operations (\<open>newStream\<close>,
  \<open>setMiddleware\<close>, \<open>subscribe\<close>, \<open>onClose\<close>, \<open>push\<close>, \<open>broadcast\<close>, \<open>Close\<close>), whose
  source file is not among the sources. The extractor's pushes are taken one at a time:
  a record goes through the middleware chain in insertion order and is then handed to
  every subscriber, which calls its handler when its batch is full.\<close>

definition newStream :: stream where
  "newStream =
     \<lparr>middlewares = [], subscribers = [], onCloses = [], closed = False, terminalErr = None\<rparr>"

definition setMiddleware :: "streamMiddleware \<Rightarrow> stream \<Rightarrow> stream" where
  "setMiddleware m s = s\<lparr>middlewares := middlewares s @ [m]\<rparr>"

definition subscribe ::
  "(Record list \<Rightarrow> event list \<times> error option) \<Rightarrow> nat \<Rightarrow> stream \<Rightarrow> stream" where
  "subscribe fn n s =
     s\<lparr>subscribers := subscribers s @ [\<lparr>callback = fn, batchSize = n, batch = []\<rparr>]\<rparr>"

definition onClose :: "(unit \<Rightarrow> event list) \<Rightarrow> stream \<Rightarrow> stream" where
  "onClose fn s = s\<lparr>onCloses := onCloses s @ [fn]\<rparr>"

text \<open>Modelled from the spec: the chain is applied in insertion order and a failure
  short-circuits.\<close>

fun runMiddlewares :: "streamMiddleware list \<Rightarrow> Record \<Rightarrow> nat \<Rightarrow> mw_result \<times> nat" where
  "runMiddlewares [] d n = (MwOk d, n)"
| "runMiddlewares (m # ms) d n =
     (case m d n of
        (MwOk d', n') \<Rightarrow> runMiddlewares ms d' n'
      | (MwErr e, n') \<Rightarrow> (MwErr e, n')
      | (MwPanic p, n') \<Rightarrow> (MwPanic p, n'))"

text \<open>The first error wins the terminal-error slot.\<close>

definition firstErr :: "error option \<Rightarrow> error option \<Rightarrow> error option" where
  "firstErr old new = (case old of Some e \<Rightarrow> Some e | None \<Rightarrow> new)"

text \<open>Modelled from the spec: a subscriber adds the record to its batch and calls its
  handler with the batch once it holds \<open>batchSize\<close> records.\<close>

definition deliver :: "Record \<Rightarrow> subscriber \<Rightarrow> subscriber \<times> event list \<times> error option" where
  "deliver d l =
     (let b = batch l @ [d] in
      if batchSize l \<le> length b
      then (case callback l b of (evs, e) \<Rightarrow> (l\<lparr>batch := []\<rparr>, evs, e))
      else (l\<lparr>batch := b\<rparr>, [], None))"

fun deliverAll ::
  "Record \<Rightarrow> subscriber list \<Rightarrow> subscriber list \<times> event list \<times> error option" where
  "deliverAll d [] = ([], [], None)"
| "deliverAll d (l # ls) =
     (case deliver d l of
        (l', evs, e) \<Rightarrow>
          (case deliverAll d ls of
             (ls', evs', e') \<Rightarrow> (l' # ls', evs @ evs', firstErr e e')))"

text \<open>Modelled from the spec: on the final flush a handler receives the records left
  in its batch, fewer than \<open>batchSize\<close>.\<close>

definition flush :: "subscriber \<Rightarrow> subscriber \<times> event list \<times> error option" where
  "flush l =
     (if batch l = [] then (l, [], None)
      else (case callback l (batch l) of (evs, e) \<Rightarrow> (l\<lparr>batch := []\<rparr>, evs, e)))"

fun flushAll :: "subscriber list \<Rightarrow> subscriber list \<times> event list \<times> error option" where
  "flushAll [] = ([], [], None)"
| "flushAll (l # ls) =
     (case flush l of
        (l', evs, e) \<Rightarrow>
          (case flushAll ls of
             (ls', evs', e') \<Rightarrow> (l' # ls', evs @ evs', firstErr e e')))"

text \<open>Modelled from the spec: \<open>Close\<close> is idempotent; the batches left are flushed and
  then every close hook runs, once.\<close>

definition Close :: "stream \<Rightarrow> stream \<times> event list" where
  "Close s =
     (if closed s then (s, [])
      else (case flushAll (subscribers s) of
              (ls, evs, e) \<Rightarrow>
                (s\<lparr>subscribers := ls, closed := True,
                   terminalErr := firstErr (terminalErr s) e\<rparr>,
                 evs @ concat (map (\<lambda>h. h ()) (onCloses s)))))"

text \<open>Modelled from the spec: a fatal error is saved in the terminal-error slot, no
  further record is delivered, and the stream is closed (the close hooks run).\<close>

definition closeWithError :: "error \<Rightarrow> stream \<Rightarrow> stream \<times> event list" where
  "closeWithError e s =
     (if closed s then (s, [])
      else (s\<lparr>closed := True, terminalErr := firstErr (terminalErr s) (Some e)\<rparr>,
            concat (map (\<lambda>h. h ()) (onCloses s))))"

text \<open>Modelled from the spec: \<open>push\<close> of one record. The state is the stream and the
  counter that the middlewares share.\<close>

definition push :: "Record \<Rightarrow> stream \<times> nat \<Rightarrow> (stream \<times> nat) \<times> event list" where
  "push d sn =
     (case sn of
        (s, n) \<Rightarrow>
          if closed s then ((s, n), [])
          else (case runMiddlewares (middlewares s) d n of
                  (MwErr e, n') \<Rightarrow>
                    (case closeWithError e s of (s', evs) \<Rightarrow> ((s', n'), evs))
                | (MwPanic p, n') \<Rightarrow>
                    (case closeWithError (New p) s of (s', evs) \<Rightarrow> ((s', n'), evs))
                | (MwOk d', n') \<Rightarrow>
                    (case deliverAll d' (subscribers s) of
                       (ls, evs, None) \<Rightarrow> ((s\<lparr>subscribers := ls\<rparr>, n'), evs)
                     | (ls, evs, Some e) \<Rightarrow>
                         (case closeWithError e (s\<lparr>subscribers := ls\<rparr>) of
                            (s', evs') \<Rightarrow> ((s', n'), evs @ evs')))))"

text \<open>The records that \<open>Extract\<close> emits, pushed in order.\<close>

fun pushAll :: "Record list \<Rightarrow> stream \<times> nat \<Rightarrow> (stream \<times> nat) \<times> event list" where
  "pushAll [] sn = (sn, [])"
| "pushAll (d # ds) sn =
     (case push d sn of
        (sn', evs) \<Rightarrow>
          (case pushAll ds sn' of (sn'', evs') \<Rightarrow> (sn'', Emit d # evs @ evs')))"

text \<open>Modelled from the spec: \<open>broadcast\<close> returns, once the stream is closed, the
  terminal error.\<close>

definition broadcast :: "stream \<Rightarrow> error option" where
  "broadcast s = terminalErr s"

section \<open>The retrier\<close>

text \<open>Modelled from the spec: \<open>retrier.retry\<close>, whose source file is not among the
  sources. A nil result stops; a \<open>RetryError\<close> is notified and the operation tried
  again, up to \<open>maxRetries\<close> attempts in all, after which the cause is returned
  unwrapped; any other error is returned at once. The operation is tried at least once.
  \<open>op i\<close> is the attempt that follows \<open>i\<close> earlier ones; the interval notified after it is
  the initial interval \<open>d\<close> doubled \<open>i\<close> times (the sleep itself is not modelled).\<close>

fun retryLoop ::
  "nat \<Rightarrow> nat \<Rightarrow> nat \<Rightarrow> (nat \<Rightarrow> event list \<times> error option) \<Rightarrow>
   (error \<Rightarrow> nat \<Rightarrow> event list) \<Rightarrow> event list \<times> error option" where
  "retryLoop d 0 i op notify =
     (case op i of
        (evs, None) \<Rightarrow> (evs, None)
      | (evs, Some (RetryError e)) \<Rightarrow> (evs, Some e)
      | (evs, Some e) \<Rightarrow> (evs, Some e))"
| "retryLoop d (Suc k) i op notify =
     (case op i of
        (evs, None) \<Rightarrow> (evs, None)
      | (evs, Some (RetryError e)) \<Rightarrow>
          (case retryLoop d k (Suc i) op notify of
             (evs', res) \<Rightarrow> (evs @ notify (RetryError e) (d * 2 ^ i) @ evs', res))
      | (evs, Some e) \<Rightarrow> (evs, Some e))"

definition retry ::
  "retrier \<Rightarrow> (nat \<Rightarrow> event list \<times> error option) \<Rightarrow> (error \<Rightarrow> nat \<Rightarrow> event list) \<Rightarrow>
   event list \<times> error option" where
  "retry rt op notify = retryLoop (initialInterval rt) (maxRetries rt - 1) 0 op notify"


section \<open>The agent\<close>

definition defaultBatchSize :: nat where
  "defaultBatchSize = 1"

definition quoted :: "string \<Rightarrow> string" where
  "quoted name = [CHR 0x22] @ name @ [CHR 0x22]"

subsection \<open>Setting the plugins up\<close>

text \<open>\<open>runFn\<close>, the closure that \<open>setupExtractor\<close> returns: it calls \<open>Extract\<close> and wraps
  the error it returns.\<close>

definition runFn :: "Extractor \<Rightarrow> SourceRecipe \<Rightarrow> Record list \<times> extract_end" where
  "runFn extractor sr =
     (case ext_Extract extractor (src_Config sr) of
        (ds, Returns (Some e)) \<Rightarrow>
          (ds, Returns (Some (Wrap e (''error running extractor '' @ quoted (src_Type sr)))))
      | (ds, Returns None) \<Rightarrow> (ds, Returns None)
      | (ds, Panics p) \<Rightarrow> (ds, Panics p))"

definition setupExtractor ::
  "Agent \<Rightarrow> SourceRecipe \<Rightarrow> event list \<times> (error + Record list \<times> extract_end)" where
  "setupExtractor r sr =
     (case extractorFactory r (src_Type sr) of
        Inl e \<Rightarrow> ([], Inl (Wrap e (''could not find extractor '' @ quoted (src_Type sr))))
      | Inr extractor \<Rightarrow>
          (case ext_Init extractor (src_Config sr) of
             Some e \<Rightarrow>
               ([Init PluginTypeExtractor (src_Type sr)],
                Inl (Wrap e (''could not initiate extractor '' @ quoted (src_Type sr))))
           | None \<Rightarrow>
               ([Init PluginTypeExtractor (src_Type sr)], Inr (runFn extractor sr))))"

text \<open>The middleware that \<open>setupProcessor\<close> registers.\<close>

definition processorMiddleware :: "Processor \<Rightarrow> ProcessorRecipe \<Rightarrow> streamMiddleware" where
  "processorMiddleware proc pr src n =
     (case proc_Process proc src of
        ProcessFails e \<Rightarrow>
          (MwErr (Wrap e (''error running processor '' @ quoted (pr_Name pr))), n)
      | Processed dst \<Rightarrow> (MwOk dst, n)
      | ProcessPanics p \<Rightarrow> (MwPanic p, n))"

definition setupProcessor ::
  "Agent \<Rightarrow> ProcessorRecipe \<Rightarrow> stream \<Rightarrow> event list \<times> (error + stream)" where
  "setupProcessor r pr str =
     (case processorFactory r (pr_Name pr) of
        Inl e \<Rightarrow> ([], Inl (Wrap e (''could not find processor '' @ quoted (pr_Name pr))))
      | Inr proc \<Rightarrow>
          (case proc_Init proc (pr_Config pr) of
             Some e \<Rightarrow>
               ([Init PluginTypeProcessor (pr_Name pr)],
                Inl (Wrap e (''could not initiate processor '' @ quoted (pr_Name pr))))
           | None \<Rightarrow>
               ([Init PluginTypeProcessor (pr_Name pr)],
                Inr (setMiddleware (processorMiddleware proc pr) str))))"

text \<open>The notification of a retry: \<open>fmt.Sprintf("retrying sink in %d", d)\<close> is logged, \<open>d\<close>
  being the interval (a \<open>time.Duration\<close>, printed as its number of nanoseconds).\<close>

definition retryNotification :: "SinkRecipe \<Rightarrow> error \<Rightarrow> nat \<Rightarrow> event list" where
  "retryNotification sr e d = [Log Info (''retrying sink in '' @ showNat d)]"

text \<open>The operation given to the retrier: one call of \<open>Sink\<close> on the batch. The batch
  handler that \<open>setupSink\<close> subscribes runs it under the retrier; an error left after the
  retries is logged, and dropped unless \<open>stopOnSinkError\<close>.\<close>

definition sinkOp :: "Syncer \<Rightarrow> SinkRecipe \<Rightarrow> Record list \<Rightarrow> nat \<Rightarrow> event list \<times> error option" where
  "sinkOp sink sr records i = ([SinkCall (sr_Name sr) records], snk_Sink sink i records)"

definition sinkHandler ::
  "Agent \<Rightarrow> Syncer \<Rightarrow> SinkRecipe \<Rightarrow> Record list \<Rightarrow> event list \<times> error option" where
  "sinkHandler r sink sr records =
     (case retry (retrier r) (sinkOp sink sr records) (retryNotification sr) of
        (evs, None) \<Rightarrow> (evs, None)
      | (evs, Some e) \<Rightarrow>
          (evs @ [Log Err ''error running sink''],
           if \<not> stopOnSinkError r then None else Some e))"

text \<open>The close hook that \<open>setupSink\<close> registers.\<close>

definition sinkCloser :: "Syncer \<Rightarrow> SinkRecipe \<Rightarrow> unit \<Rightarrow> event list" where
  "sinkCloser sink sr u =
     (case snk_Close sink of
        Some e \<Rightarrow> [CloseSink (sr_Name sr), Log Warn ''error closing sink'']
      | None \<Rightarrow> [CloseSink (sr_Name sr)])"

definition setupSink ::
  "Agent \<Rightarrow> SinkRecipe \<Rightarrow> stream \<Rightarrow> event list \<times> (error + stream)" where
  "setupSink r sr str =
     (case sinkFactory r (sr_Name sr) of
        Inl e \<Rightarrow> ([], Inl (Wrap e (''could not find sink '' @ quoted (sr_Name sr))))
      | Inr sink \<Rightarrow>
          (case snk_Init sink (sr_Config sr) of
             Some e \<Rightarrow>
               ([Init PluginTypeSink (sr_Name sr)],
                Inl (Wrap e (''could not initiate sink '' @ quoted (sr_Name sr))))
           | None \<Rightarrow>
               ([Init PluginTypeSink (sr_Name sr)],
                Inr (onClose (sinkCloser sink sr)
                       (subscribe (sinkHandler r sink sr) defaultBatchSize str)))))"

text \<open>The two loops of \<open>Run\<close> over the processors and the sinks of the recipe; each
  returns at the first failure.\<close>

fun setupProcessors ::
  "Agent \<Rightarrow> ProcessorRecipe list \<Rightarrow> stream \<Rightarrow> event list \<times> (error + stream)" where
  "setupProcessors r [] str = ([], Inr str)"
| "setupProcessors r (pr # prs) str =
     (case setupProcessor r pr str of
        (evs, Inl e) \<Rightarrow> (evs, Inl e)
      | (evs, Inr str') \<Rightarrow>
          (case setupProcessors r prs str' of (evs', res) \<Rightarrow> (evs @ evs', res)))"

fun setupSinks ::
  "Agent \<Rightarrow> SinkRecipe list \<Rightarrow> stream \<Rightarrow> event list \<times> (error + stream)" where
  "setupSinks r [] str = ([], Inr str)"
| "setupSinks r (sr # srs) str =
     (case setupSink r sr str of
        (evs, Inl e) \<Rightarrow> (evs, Inl e)
      | (evs, Inr str') \<Rightarrow>
          (case setupSinks r srs str' of (evs', res) \<Rightarrow> (evs @ evs', res)))"

subsection \<open>Run\<close>

text \<open>The middleware that counts the records (\<open>recordCount++\<close>).\<close>

definition countRecords :: streamMiddleware where
  "countRecords src n = (MwOk src, n + 1)"

text \<open>\<open>logAndRecordMetrics\<close> receives the run by value: the duration is set on its own
  copy, which is the one the monitor is given.\<close>

definition logAndRecordMetrics :: "Agent \<Rightarrow> Run \<Rightarrow> int \<Rightarrow> event list" where
  "logAndRecordMetrics r run durationInMs =
     (let run' = run\<lparr>DurationInMs := durationInMs\<rparr> in
      [RecordRun run',
       if Success run' then Log Info ''done running recipe''
       else Log Err ''error running recipe''])"

text \<open>The deferred function of \<open>Run\<close>, which runs on every return: the result is the
  named result \<open>run\<close> as it stands, with the effects so far and those of the deferred
  call.\<close>

definition deferred ::
  "Agent \<Rightarrow> (unit \<Rightarrow> int) \<Rightarrow> Run \<Rightarrow> event list \<Rightarrow> Run \<times> event list" where
  "deferred r getDuration run evs =
     (let durationInMs = getDuration () in (run, evs @ logAndRecordMetrics r run durationInMs))"

text \<open>What the goroutine that runs the extractor writes to \<open>run.Error\<close>, if anything: the
  error of \<open>Extract\<close> wrapped, or \<open>fmt.Errorf("%s", r)\<close> for the value \<open>r\<close> that \<open>recover\<close>
  returns when it is not nil.\<close>

definition goroutineError :: "extract_end \<Rightarrow> error option" where
  "goroutineError fin =
     (case fin of
        Returns None \<Rightarrow> None
      | Returns (Some e) \<Rightarrow> Some (Wrap e ''failed to run extractor'')
      | Panics p \<Rightarrow> (case recover p of None \<Rightarrow> None | Some v \<Rightarrow> Some (Errorf v)))"

text \<open>The goroutine that runs the extractor: the records go through the stream, the
  error or the panic of \<open>Extract\<close> is written to \<open>run.Error\<close>, and the stream is closed
  in every case.\<close>

definition extractorGoroutine ::
  "Recipe \<Rightarrow> Run \<Rightarrow> Record list \<times> extract_end \<Rightarrow> stream \<times> nat \<Rightarrow>
   Run \<times> (stream \<times> nat) \<times> event list" where
  "extractorGoroutine recipe run runExtractor sn =
     (case runExtractor of
        (ds, fin) \<Rightarrow>
          (case pushAll ds sn of
             ((s, n), evs) \<Rightarrow>
               (let run' =
                      (case goroutineError fin of
                         None \<Rightarrow> run
                       | Some e \<Rightarrow> run\<lparr>Error := Some e\<rparr>)
                in (case Close s of
                      (s', evs') \<Rightarrow>
                        (run', (s', n),
                         Extract (src_Type (Source recipe)) # evs @ evs')))))"

text \<open>
  The order of the two writes to \<open>run.Error\<close>. When a terminal error closes the stream,
  \<open>broadcast\<close> returns while the goroutine of the extractor may still run, and the write of
  \<open>Run\<close> (the error of \<open>broadcast\<close>, wrapped) and the write of the goroutine (the error or
  the panic of \<open>Extract\<close>) are not ordered: with \<open>ExtractorFirst\<close> the goroutine writes first
  and the write of \<open>Run\<close> stands, with \<open>BroadcastFirst\<close> \<open>Run\<close> writes first and the write
  of the goroutine stands. When no terminal error was recorded, the stream is closed by the
  goroutine after its write, and \<open>broadcast\<close> returns nil: there is one write at most.
\<close>

datatype schedule = ExtractorFirst | BroadcastFirst

text \<open>What \<open>Run\<close> does once every plugin is set up: the counter is installed, the
  extractor runs, and the outcome of \<open>broadcast\<close> is gathered.\<close>

definition runStream ::
  "schedule \<Rightarrow> Recipe \<Rightarrow> Run \<Rightarrow> Record list \<times> extract_end \<Rightarrow> stream \<Rightarrow>
   Run \<times> event list" where
  "runStream sch recipe run runExtractor str =
     (let stream' = setMiddleware countRecords str in
      case extractorGoroutine recipe run runExtractor (stream', 0) of
        (run1, (s, recordCount), evs) \<Rightarrow>
          (let run2 =
                 (case broadcast s of
                    Some e \<Rightarrow>
                      (case sch of
                         ExtractorFirst \<Rightarrow>
                           run1\<lparr>Error := Some (Wrap e ''failed to broadcast stream'')\<rparr>
                       | BroadcastFirst \<Rightarrow>
                           (case goroutineError (snd runExtractor) of
                              None \<Rightarrow>
                                run1\<lparr>Error := Some (Wrap e ''failed to broadcast stream'')\<rparr>
                            | Some e' \<Rightarrow> run1\<lparr>Error := Some e'\<rparr>))
                  | None \<Rightarrow> run1);
               run3 = run2\<lparr>RecordCount := recordCount\<rparr>;
               success = (Error run3 = None)
           in (run3\<lparr>Success := success\<rparr>, evs)))"

text \<open>\<open>Run\<close> under a schedule: the run returned to the caller, and the effects in the
  order they happen.\<close>

definition RunSched :: "schedule \<Rightarrow> Agent \<Rightarrow> Recipe \<Rightarrow> Run \<times> event list" where
  "RunSched sch r recipe =
     (let run = newRun recipe;
          evs0 = [Log Info ''running recipe''];
          getDuration = timerFn r ();
          str = newStream
      in case setupExtractor r (Source recipe) of
           (evs1, Inl e) \<Rightarrow>
             deferred r getDuration
               (run\<lparr>Error := Some (Wrap e ''failed to setup extractor'')\<rparr>) (evs0 @ evs1)
         | (evs1, Inr runExtractor) \<Rightarrow>
             (case setupProcessors r (Processors recipe) str of
                (evs2, Inl e) \<Rightarrow>
                  deferred r getDuration
                    (run\<lparr>Error := Some (Wrap e ''failed to setup processor'')\<rparr>)
                    (evs0 @ evs1 @ evs2)
              | (evs2, Inr str2) \<Rightarrow>
                  (case setupSinks r (Sinks recipe) str2 of
                     (evs3, Inl e) \<Rightarrow>
                       deferred r getDuration
                         (run\<lparr>Error := Some (Wrap e ''failed to setup sink'')\<rparr>)
                         (evs0 @ evs1 @ evs2 @ evs3)
                   | (evs3, Inr str3) \<Rightarrow>
                       (case runStream sch recipe run runExtractor str3 of
                          (run', evs4) \<Rightarrow>
                            deferred r getDuration run'
                              (evs0 @ evs1 @ evs2 @ evs3 @ evs4)))))"

text \<open>\<open>Run\<close>, in the schedule where the goroutine of the extractor has ended when \<open>Run\<close>
  writes the error of \<open>broadcast\<close>.\<close>

definition Run :: "Agent \<Rightarrow> Recipe \<Rightarrow> Run \<times> event list" where
  "Run r recipe = RunSched ExtractorFirst r recipe"

text \<open>What \<open>broadcast\<close> returns once the records of the extractor went through the stream
  and the stream is closed; and what it returns in the run of a recipe (nil when the
  set-up fails: \<open>broadcast\<close> is not called).\<close>

definition terminalOf :: "Record list \<times> extract_end \<Rightarrow> stream \<Rightarrow> error option" where
  "terminalOf runExtractor str =
     (case pushAll (fst runExtractor) (setMiddleware countRecords str, 0) of
        ((s, n), evs) \<Rightarrow> (case Close s of (s', evs') \<Rightarrow> broadcast s'))"

definition broadcastResult :: "Agent \<Rightarrow> Recipe \<Rightarrow> error option" where
  "broadcastResult r recipe =
     (case setupExtractor r (Source recipe) of
        (evs1, Inl e) \<Rightarrow> None
      | (evs1, Inr runExtractor) \<Rightarrow>
          (case setupProcessors r (Processors recipe) newStream of
             (evs2, Inl e) \<Rightarrow> None
           | (evs2, Inr str2) \<Rightarrow>
               (case setupSinks r (Sinks recipe) str2 of
                  (evs3, Inl e) \<Rightarrow> None
                | (evs3, Inr str3) \<Rightarrow> terminalOf runExtractor str3)))"

subsection \<open>RunMultiple\<close>

text \<open>\<open>runs\<close> is made with one zero \<open>Run\<close> per recipe; the goroutine of index \<open>i\<close>
  writes \<open>runs[i]\<close>. The goroutines are taken in the order of the loop.\<close>

definition zeroRun :: Run where
  "zeroRun =
     \<lparr>run_Recipe =
        \<lparr>rcp_Name = [], Source = \<lparr>src_Type = [], src_Config = []\<rparr>, Processors = [],
         Sinks = []\<rparr>,
      Error = None, DurationInMs = 0, RecordCount = 0, Success = False\<rparr>"

fun runEach ::
  "Agent \<Rightarrow> nat \<Rightarrow> Recipe list \<Rightarrow> Run list \<times> event list \<Rightarrow> Run list \<times> event list" where
  "runEach r i [] acc = acc"
| "runEach r i (recipe # rest) acc =
     (case acc of
        (runs, evs) \<Rightarrow>
          (case Run r recipe of
             (run, evs') \<Rightarrow> runEach r (Suc i) rest (runs[i := run], evs @ evs')))"

definition RunMultiple :: "Agent \<Rightarrow> Recipe list \<Rightarrow> Run list \<times> event list" where
  "RunMultiple r recipes = runEach r 0 recipes (replicate (length recipes) zeroRun, [])"


section \<open>Plugins and recipes of the tests\<close>

text \<open>A registry with the given plugins: \<open>Get\<close> fails for a name that is not
  registered.\<close>

definition factoryOf :: "(string \<times> 'p) list \<Rightarrow> 'p Factory" where
  "factoryOf xs name =
     (case map_of xs name of None \<Rightarrow> Inl (New ''could not find plugin'') | Some p \<Rightarrow> Inr p)"

text \<open>A mock extractor that emits \<open>ds\<close> and then ends with \<open>fin\<close>.\<close>

definition mockExtractor :: "Record list \<Rightarrow> extract_end \<Rightarrow> Extractor" where
  "mockExtractor ds fin =
     \<lparr>ext_Validate = (\<lambda>c. None), ext_Init = (\<lambda>c. None), ext_Extract = (\<lambda>c. (ds, fin))\<rparr>"

text \<open>A mock processor that returns its record.\<close>

definition mockProcessor :: Processor where
  "mockProcessor =
     \<lparr>proc_Validate = (\<lambda>c. None), proc_Init = (\<lambda>c. None), proc_Process = Processed\<rparr>"

text \<open>A mock processor that fails on the record \<open>bad\<close>.\<close>

definition failingProcessor :: "Record \<Rightarrow> Processor" where
  "failingProcessor bad =
     \<lparr>proc_Validate = (\<lambda>c. None), proc_Init = (\<lambda>c. None),
      proc_Process =
        (\<lambda>d. if d = bad then ProcessFails (New ''some error'') else Processed d)\<rparr>"

text \<open>A mock processor whose \<open>Init\<close> fails.\<close>

definition initFailingProcessor :: Processor where
  "initFailingProcessor =
     \<lparr>proc_Validate = (\<lambda>c. None), proc_Init = (\<lambda>c. Some (New ''some error'')),
      proc_Process = Processed\<rparr>"

text \<open>A mock sink whose \<open>Sink\<close> always returns \<open>res\<close>.\<close>

definition mockSink :: "error option \<Rightarrow> Syncer" where
  "mockSink res =
     \<lparr>snk_Validate = (\<lambda>c. None), snk_Init = (\<lambda>c. None), snk_Sink = (\<lambda>i b. res),
      snk_Close = None\<rparr>"

definition validRecipe :: Recipe where
  "validRecipe =
     \<lparr>rcp_Name = ''sample'',
      Source = \<lparr>src_Type = ''test-extractor'', src_Config = []\<rparr>,
      Processors =
        [\<lparr>pr_Name = ''test-processor'', pr_Config = [(''proc-foo'', ''proc-bar'')]\<rparr>],
      Sinks =
        [\<lparr>sr_Name = ''test-sink'', sr_Config = [(''url'', ''http://localhost:3000/data'')]\<rparr>]\<rparr>"

text \<open>The agent of the tests: one extractor, one processor and one sink registered
  under the names of \<open>validRecipe\<close>, and a timer that returns 1000.\<close>

definition testAgent :: "Extractor \<Rightarrow> Processor \<Rightarrow> Syncer \<Rightarrow> bool \<Rightarrow> Agent" where
  "testAgent e p s stop =
     \<lparr>extractorFactory = factoryOf [(''test-extractor'', e)],
      processorFactory = factoryOf [(''test-processor'', p)],
      sinkFactory = factoryOf [(''test-sink'', s)],
      retrier = \<lparr>maxRetries = 2, initialInterval = 1000000\<rparr>,
      stopOnSinkError = stop,
      timerFn = (\<lambda>u v. 1000)\<rparr>"

text \<open>\<open>validRecipe\<close> under another name, with a source that is not registered.\<close>

definition failingRecipe :: Recipe where
  "failingRecipe = validRecipe\<lparr>rcp_Name := ''sample-2'', Source := \<lparr>src_Type = ''unknown'', src_Config = []\<rparr>\<rparr>"


text \<open>\<open>validRecipe\<close> with a sink that is not registered.\<close>

definition missingSinkRecipe :: Recipe where
  "missingSinkRecipe = validRecipe\<lparr>Sinks := [\<lparr>sr_Name = ''missing-sink'', sr_Config = []\<rparr>]\<rparr>"


section \<open>Reading the effects\<close>

text \<open>The runs given to \<open>monitor.RecordRun\<close>, and the records the extractor emitted.\<close>

fun recorded :: "event list \<Rightarrow> Run list" where
  "recorded [] = []"
| "recorded (RecordRun run # evs) = run # recorded evs"
| "recorded (e # evs) = recorded evs"

fun emitted :: "event list \<Rightarrow> Record list" where
  "emitted [] = []"
| "emitted (Emit d # evs) = d # emitted evs"
| "emitted (e # evs) = emitted evs"

text \<open>The effects that can follow the set-up of the plugins: no \<open>Init\<close>, no call of the
  monitor, and \<open>Sink\<close> on batches of one record only.\<close>

fun streamEvent :: "event \<Rightarrow> bool" where
  "streamEvent (SinkCall name b) = (length b = 1)"
| "streamEvent (Init role name) = False"
| "streamEvent (RecordRun run) = False"
| "streamEvent (Extract name) = True"
| "streamEvent (Emit d) = True"
| "streamEvent (CloseSink name) = True"
| "streamEvent (Log l m) = True"

text \<open>The subscribers that the agent registers: batch size 1, an empty batch between two
  pushes, and a handler whose effects are of the kind above.\<close>

definition agentStream :: "stream \<Rightarrow> bool" where
  "agentStream s \<longleftrightarrow>
     (\<forall>l\<in>set (subscribers s).
        batchSize l = 1 \<and> batch l = [] \<and> (\<forall>d. \<forall>e\<in>set (fst (callback l [d])). streamEvent e)) \<and>
     (\<forall>h\<in>set (onCloses s). \<forall>e\<in>set (h ()). streamEvent e)"

definition unitSubscriber :: "subscriber \<Rightarrow> bool" where
  "unitSubscriber l \<longleftrightarrow>
     batchSize l = 1 \<and> batch l = [] \<and> (\<forall>d. \<forall>e\<in>set (fst (callback l [d])). streamEvent e)"


section \<open>The order of the set-up\<close>

text \<open>\<open>Init\<close> events, and the events of the extraction (\<open>Extract\<close> is called, a record
  is emitted).\<close>

fun isInit :: "event \<Rightarrow> bool" where
  "isInit (Init role name) = True"
| "isInit e = False"

fun isExtraction :: "event \<Rightarrow> bool" where
  "isExtraction (Extract name) = True"
| "isExtraction (Emit d) = True"
| "isExtraction e = False"

text \<open>
  The order of the set-up as the specification words it: the extractor, then every
  processor in recipe order, then every sink; a plugin that cannot be found or whose
  \<open>Init\<close> fails ends the set-up. A step is the role and name of a plugin with the outcome
  of its lookup and \<open>Init\<close> (\<open>None\<close>: not found).
\<close>

type_synonym plugin_step = "PluginType \<times> string \<times> error option option"

definition lookupInit ::
  "'p Factory \<Rightarrow> ('p \<Rightarrow> config \<Rightarrow> error option) \<Rightarrow> string \<Rightarrow> config \<Rightarrow> error option option" where
  "lookupInit get init name cfg =
     (case get name of Inl e \<Rightarrow> None | Inr p \<Rightarrow> Some (init p cfg))"

definition extractorStep :: "Agent \<Rightarrow> SourceRecipe \<Rightarrow> plugin_step" where
  "extractorStep r sr =
     (PluginTypeExtractor, src_Type sr,
      lookupInit (extractorFactory r) ext_Init (src_Type sr) (src_Config sr))"

definition processorStep :: "Agent \<Rightarrow> ProcessorRecipe \<Rightarrow> plugin_step" where
  "processorStep r pr =
     (PluginTypeProcessor, pr_Name pr,
      lookupInit (processorFactory r) proc_Init (pr_Name pr) (pr_Config pr))"

definition sinkStep :: "Agent \<Rightarrow> SinkRecipe \<Rightarrow> plugin_step" where
  "sinkStep r sr =
     (PluginTypeSink, sr_Name sr,
      lookupInit (sinkFactory r) snk_Init (sr_Name sr) (sr_Config sr))"

definition stepsOf :: "Agent \<Rightarrow> Recipe \<Rightarrow> plugin_step list" where
  "stepsOf r recipe =
     extractorStep r (Source recipe) # map (processorStep r) (Processors recipe) @
     map (sinkStep r) (Sinks recipe)"

text \<open>The \<open>Init\<close> calls made, and whether every plugin was set up.\<close>

fun initsUntilFailure :: "plugin_step list \<Rightarrow> event list \<times> bool" where
  "initsUntilFailure [] = ([], True)"
| "initsUntilFailure ((role, name, None) # steps) = ([], False)"
| "initsUntilFailure ((role, name, Some (Some e)) # steps) = ([Init role name], False)"
| "initsUntilFailure ((role, name, Some None) # steps) =
     (case initsUntilFailure steps of (evs, ok) \<Rightarrow> (Init role name # evs, ok))"

section \<open>Streams that the set-up builds\<close>


text \<open>The handler of a sink has logged an error left after the retries.\<close>

definition sinkErrorLogged :: "event list \<Rightarrow> bool" where
  "sinkErrorLogged evs \<longleftrightarrow> Log Err ''error running sink'' \<in> set evs"





lemmas run_defs =
  Run_def RunSched_def deferred_def newRun_def runStream_def extractorGoroutine_def
  goroutineError_def terminalOf_def broadcastResult_def
  setupExtractor_def setupProcessor_def setupSink_def runFn_def processorMiddleware_def
  sinkHandler_def sinkOp_def sinkCloser_def retryNotification_def retry_def countRecords_def
  logAndRecordMetrics_def push_def closeWithError_def Close_def flush_def deliver_def
  firstErr_def broadcast_def newStream_def setMiddleware_def subscribe_def onClose_def
  defaultBatchSize_def quoted_def Let_def

lemmas test_defs =
  factoryOf_def mockExtractor_def mockProcessor_def failingProcessor_def mockSink_def
  validRecipe_def missingSinkRecipe_def failingRecipe_def testAgent_def
  initFailingProcessor_def

section \<open>The stream under the agent's subscribers\<close>

lemma deliver_unit:
  "unitSubscriber l \<Longrightarrow> deliver d l = (l, fst (callback l [d]), snd (callback l [d]))"
  by (simp add: deliver_def unitSubscriber_def split: prod.splits)

lemma deliverAll_unit:
  "\<forall>l\<in>set ls. unitSubscriber l \<Longrightarrow> deliverAll d ls = (ls', evs, e) \<Longrightarrow>
     ls' = ls \<and> (\<forall>x\<in>set evs. streamEvent x)"
proof (induction ls arbitrary: ls' evs e)
  case Nil
  then show ?case by simp
next
  case (Cons l ls)
  obtain ls2 evs2 e2 where r: "deliverAll d ls = (ls2, evs2, e2)"
    by (cases "deliverAll d ls") auto
  from Cons.prems(1) have u: "unitSubscriber l" and us: "\<forall>l\<in>set ls. unitSubscriber l"
    by simp_all
  from Cons.IH [OF us r] have ih: "ls2 = ls" "\<forall>x\<in>set evs2. streamEvent x" by simp_all
  from u have "\<forall>x\<in>set (fst (callback l [d])). streamEvent x"
    by (simp add: unitSubscriber_def)
  with Cons.prems(2) r ih show ?case
    by (auto simp: deliver_unit [OF u] split: prod.splits)
qed

lemma flushAll_unit:
  "\<forall>l\<in>set ls. unitSubscriber l \<Longrightarrow> flushAll ls = (ls, [], None)"
  by (induction ls) (auto simp: flush_def unitSubscriber_def firstErr_def)

lemma agentStream_subs: "agentStream s \<Longrightarrow> \<forall>l\<in>set (subscribers s). unitSubscriber l"
  by (simp add: agentStream_def unitSubscriber_def)

lemma hooks_events:
  "\<forall>h\<in>set hs. \<forall>e\<in>set (h ()). streamEvent e \<Longrightarrow>
     \<forall>e\<in>set (concat (map (\<lambda>h. h ()) hs)). streamEvent e"
  by auto

lemma closeWithError_agent:
  "agentStream s \<Longrightarrow> closeWithError e s = (s', evs) \<Longrightarrow>
     agentStream s' \<and> (\<forall>x\<in>set evs. streamEvent x)"
  by (auto simp: closeWithError_def agentStream_def split: if_splits)

lemma Close_agent:
  "agentStream s \<Longrightarrow> Close s = (s', evs) \<Longrightarrow>
     agentStream s' \<and> (\<forall>x\<in>set evs. streamEvent x)"
  using flushAll_unit [OF agentStream_subs, of s]
  by (auto simp: Close_def agentStream_def split: if_splits)

lemma agentStream_subscribers_upd:
  "agentStream s \<Longrightarrow> agentStream (s\<lparr>subscribers := subscribers s\<rparr>)"
  by simp

lemma push_agent:
  assumes "agentStream s" and "push d (s, n) = ((s', n'), evs)"
  shows "agentStream s' \<and> (\<forall>x\<in>set evs. streamEvent x)"
proof (cases "closed s")
  case True
  with assms show ?thesis by (simp add: push_def)
next
  case False
  obtain res m where mw: "runMiddlewares (middlewares s) d n = (res, m)"
    by (cases "runMiddlewares (middlewares s) d n") auto
  show ?thesis
  proof (cases res)
    case (MwOk d')
    obtain ls evs1 e1 where da: "deliverAll d' (subscribers s) = (ls, evs1, e1)"
      by (cases "deliverAll d' (subscribers s)") auto
    from deliverAll_unit [OF agentStream_subs [OF assms(1)] da]
    have ls: "ls = subscribers s" and ev1: "\<forall>x\<in>set evs1. streamEvent x" by simp_all
    show ?thesis
    proof (cases e1)
      case None
      with assms False mw MwOk da ls ev1 show ?thesis
        by (auto simp: push_def)
    next
      case (Some e)
      obtain s2 evs2 where cw: "closeWithError e s = (s2, evs2)"
        by (cases "closeWithError e s") auto
      from closeWithError_agent [OF assms(1) cw] assms False mw MwOk da ls ev1 Some cw
      show ?thesis by (auto simp: push_def)
    qed
  next
    case (MwErr e)
    obtain s2 evs2 where cw: "closeWithError e s = (s2, evs2)"
      by (cases "closeWithError e s") auto
    from closeWithError_agent [OF assms(1) cw] assms False mw MwErr cw
    show ?thesis by (auto simp: push_def)
  next
    case (MwPanic p)
    obtain s2 evs2 where cw: "closeWithError (New p) s = (s2, evs2)"
      by (cases "closeWithError (New p) s") auto
    from closeWithError_agent [OF assms(1) cw] assms False mw MwPanic cw
    show ?thesis by (auto simp: push_def)
  qed
qed

lemma pushAll_agent:
  "agentStream s \<Longrightarrow> pushAll ds (s, n) = ((s', n'), evs) \<Longrightarrow>
     agentStream s' \<and> (\<forall>x\<in>set evs. streamEvent x)"
proof (induction ds arbitrary: s n s' n' evs)
  case Nil
  then show ?case by simp
next
  case (Cons d ds)
  obtain s1 n1 evs1 where p: "push d (s, n) = ((s1, n1), evs1)"
    by (cases "push d (s, n)") auto
  obtain s2 n2 evs2 where pa: "pushAll ds (s1, n1) = ((s2, n2), evs2)"
    by (cases "pushAll ds (s1, n1)") auto
  from push_agent [OF Cons.prems(1) p] have a1: "agentStream s1" "\<forall>x\<in>set evs1. streamEvent x"
    by simp_all
  from Cons.IH [OF a1(1) pa] Cons.prems(2) p pa a1(2) show ?case by auto
qed


section \<open>The trace of the set-up\<close>

lemma initsUntilFailure_append:
  "initsUntilFailure (xs @ ys) =
     (if snd (initsUntilFailure xs)
      then (fst (initsUntilFailure xs) @ fst (initsUntilFailure ys), snd (initsUntilFailure ys))
      else initsUntilFailure xs)"
  by (induction xs rule: initsUntilFailure.induct) (auto split: prod.splits)

lemma initsUntilFailure_isInit: "\<forall>e\<in>set (fst (initsUntilFailure xs)). isInit e"
  by (induction xs rule: initsUntilFailure.induct) (auto split: prod.splits)

lemma setupExtractor_steps:
  "setupExtractor r sr = (evs, res) \<Longrightarrow>
     initsUntilFailure [extractorStep r sr] = (evs, \<not> isl res)"
  by (auto simp: setupExtractor_def extractorStep_def lookupInit_def
      split: sum.splits option.splits)

lemma setupProcessor_steps:
  "setupProcessor r pr str = (evs, res) \<Longrightarrow>
     initsUntilFailure [processorStep r pr] = (evs, \<not> isl res)"
  by (auto simp: setupProcessor_def processorStep_def lookupInit_def
      split: sum.splits option.splits)

lemma setupSink_steps:
  "setupSink r sr str = (evs, res) \<Longrightarrow>
     initsUntilFailure [sinkStep r sr] = (evs, \<not> isl res)"
  by (auto simp: setupSink_def sinkStep_def lookupInit_def
      split: sum.splits option.splits)

lemma initsUntilFailure_Cons:
  "initsUntilFailure (x # xs) =
     (if snd (initsUntilFailure [x])
      then (fst (initsUntilFailure [x]) @ fst (initsUntilFailure xs), snd (initsUntilFailure xs))
      else initsUntilFailure [x])"
  using initsUntilFailure_append [of "[x]" xs] by simp

lemma setupProcessors_steps:
  "setupProcessors r prs str = (evs, res) \<Longrightarrow>
     initsUntilFailure (map (processorStep r) prs) = (evs, \<not> isl res)"
proof (induction prs arbitrary: str evs res)
  case Nil
  then show ?case by auto
next
  case (Cons pr prs)
  obtain evs1 res1 where s1: "setupProcessor r pr str = (evs1, res1)"
    by (cases "setupProcessor r pr str") auto
  note st = setupProcessor_steps [OF s1]
  show ?case
  proof (cases res1)
    case (Inl e)
    with Cons.prems s1 st show ?thesis
      by (auto simp: initsUntilFailure_Cons [of _ "map (processorStep r) prs"])
  next
    case (Inr str')
    obtain evs2 res2 where s2: "setupProcessors r prs str' = (evs2, res2)"
      by (cases "setupProcessors r prs str'") auto
    from Cons.IH [OF s2] Cons.prems s1 st Inr s2 show ?thesis
      by (simp add: initsUntilFailure_Cons [of _ "map (processorStep r) prs"])
  qed
qed

lemma setupSinks_steps:
  "setupSinks r srs str = (evs, res) \<Longrightarrow>
     initsUntilFailure (map (sinkStep r) srs) = (evs, \<not> isl res)"
proof (induction srs arbitrary: str evs res)
  case Nil
  then show ?case by auto
next
  case (Cons sr srs)
  obtain evs1 res1 where s1: "setupSink r sr str = (evs1, res1)"
    by (cases "setupSink r sr str") auto
  note st = setupSink_steps [OF s1]
  show ?case
  proof (cases res1)
    case (Inl e)
    with Cons.prems s1 st show ?thesis
      by (auto simp: initsUntilFailure_Cons [of _ "map (sinkStep r) srs"])
  next
    case (Inr str')
    obtain evs2 res2 where s2: "setupSinks r srs str' = (evs2, res2)"
      by (cases "setupSinks r srs str'") auto
    from Cons.IH [OF s2] Cons.prems s1 st Inr s2 show ?thesis
      by (simp add: initsUntilFailure_Cons [of _ "map (sinkStep r) srs"])
  qed
qed

subsection \<open>The handlers and hooks of the agent\<close>

lemma retryLoop_events:
  "e \<in> set (fst (retryLoop d k i op notify)) \<Longrightarrow>
     (\<exists>j. e \<in> set (fst (op j))) \<or> (\<exists>x y. e \<in> set (notify x y))"
proof (induction k arbitrary: i)
  case 0
  obtain evs res where o: "op i = (evs, res)" by (cases "op i") auto
  with 0 have "e \<in> set evs"
    by (auto split: option.splits error.splits)
  with o have "e \<in> set (fst (op i))" by simp
  then show ?case by blast
next
  case (Suc k)
  obtain evs res where o: "op i = (evs, res)" by (cases "op i") auto
  obtain evs' res' where rl: "retryLoop d k (Suc i) op notify = (evs', res')"
    by (cases "retryLoop d k (Suc i) op notify") auto
  from Suc.prems o rl
  have "e \<in> set evs \<or> e \<in> set evs' \<or> (\<exists>x y. e \<in> set (notify x y))"
    by (auto split: option.splits error.splits)
  moreover have "e \<in> set evs \<Longrightarrow> e \<in> set (fst (op i))" using o by simp
  moreover have "e \<in> set evs' \<Longrightarrow> ?case" using Suc.IH [of "Suc i"] rl by simp
  ultimately show ?case by blast
qed

lemma sinkHandler_events:
  assumes "e \<in> set (fst (sinkHandler r sink sr b))"
  shows "e = SinkCall (sr_Name sr) b \<or> (\<exists>l m. e = Log l m)"
proof -
  let ?rl = "retryLoop (initialInterval (retrier r)) (maxRetries (retrier r) - 1) 0 (sinkOp sink sr b)
      (retryNotification sr)"
  from assms have "e \<in> set (fst ?rl) \<or> e = Log Err ''error running sink''"
    by (auto simp: sinkHandler_def retry_def split: prod.splits option.splits)
  then show ?thesis
  proof
    assume "e \<in> set (fst ?rl)"
    from retryLoop_events [OF this] show ?thesis
      by (auto simp: retryNotification_def sinkOp_def)
  next
    assume "e = Log Err ''error running sink''"
    then show ?thesis by blast
  qed
qed

lemma sinkHandler_streamEvent:
  "\<forall>e\<in>set (fst (sinkHandler r sink sr [d])). streamEvent e"
proof
  fix e assume "e \<in> set (fst (sinkHandler r sink sr [d]))"
  from sinkHandler_events [OF this] show "streamEvent e" by auto
qed

lemma newStream_agent: "agentStream newStream"
  by (simp add: agentStream_def newStream_def)

lemma setupProcessor_agent:
  "agentStream str \<Longrightarrow> setupProcessor r pr str = (evs, Inr str') \<Longrightarrow> agentStream str'"
  by (auto simp: setupProcessor_def setMiddleware_def agentStream_def
      split: sum.splits option.splits)

lemma setupSink_agent:
  "agentStream str \<Longrightarrow> setupSink r sr str = (evs, Inr str') \<Longrightarrow> agentStream str'"
  using sinkHandler_streamEvent
  by (auto simp: setupSink_def subscribe_def onClose_def agentStream_def sinkCloser_def
      defaultBatchSize_def split: sum.splits option.splits)

lemma setupProcessors_agent:
  "agentStream str \<Longrightarrow> setupProcessors r prs str = (evs, Inr str') \<Longrightarrow> agentStream str'"
proof (induction prs arbitrary: str evs)
  case Nil
  then show ?case by simp
next
  case (Cons pr prs)
  then show ?case
    by (auto split: prod.splits sum.splits dest: setupProcessor_agent)
qed

lemma setupSinks_agent:
  "agentStream str \<Longrightarrow> setupSinks r srs str = (evs, Inr str') \<Longrightarrow> agentStream str'"
proof (induction srs arbitrary: str evs)
  case Nil
  then show ?case by simp
next
  case (Cons sr srs)
  then show ?case
    by (auto split: prod.splits sum.splits dest: setupSink_agent)
qed

lemma extractorGoroutine_events:
  assumes "agentStream s" and "extractorGoroutine recipe run rx (s, n) = (run', sn', evs)"
  shows "\<forall>e\<in>set evs. streamEvent e"
proof -
  obtain ds fin where rx: "rx = (ds, fin)" by (cases rx) auto
  obtain s1 n1 evs1 where pa: "pushAll ds (s, n) = ((s1, n1), evs1)"
    by (cases "pushAll ds (s, n)") auto
  obtain s2 evs2 where cl: "Close s1 = (s2, evs2)" by (cases "Close s1") auto
  from pushAll_agent [OF assms(1) pa] have a1: "agentStream s1" "\<forall>x\<in>set evs1. streamEvent x"
    by simp_all
  from Close_agent [OF a1(1) cl] have "\<forall>x\<in>set evs2. streamEvent x" by simp
  with a1(2) assms(2) rx pa cl show ?thesis
    by (auto simp: extractorGoroutine_def Let_def)
qed

lemma setMiddleware_agent: "agentStream s \<Longrightarrow> agentStream (setMiddleware m s)"
  by (simp add: agentStream_def setMiddleware_def)

lemma runStream_events:
  assumes "agentStream str" and "runStream sch recipe run rx str = (run', evs)"
  shows "\<forall>e\<in>set evs. streamEvent e"
proof -
  obtain run1 sn1 evs1 where
    eg: "extractorGoroutine recipe run rx (setMiddleware countRecords str, 0) = (run1, sn1, evs1)"
    by (cases "extractorGoroutine recipe run rx (setMiddleware countRecords str, 0)") auto
  from extractorGoroutine_events [OF setMiddleware_agent [OF assms(1)] eg]
  have "\<forall>e\<in>set evs1. streamEvent e" .
  with assms(2) eg show ?thesis
    by (auto simp: runStream_def Let_def split: prod.splits)
qed


lemma runStream_starts:
  "runStream sch recipe run rx str = (run', evs) \<Longrightarrow>
     \<exists>rest. evs = Extract (src_Type (Source recipe)) # rest"
  by (auto simp: runStream_def extractorGoroutine_def Let_def split: prod.splits)

lemma stepsOf_inits:
  assumes "setupExtractor r (Source recipe) = (evs1, res1)"
  shows "initsUntilFailure (stepsOf r recipe) =
     (if isl res1 then (evs1, False)
      else (evs1 @ fst (initsUntilFailure
                (map (processorStep r) (Processors recipe) @ map (sinkStep r) (Sinks recipe))),
            snd (initsUntilFailure
                (map (processorStep r) (Processors recipe) @ map (sinkStep r) (Sinks recipe)))))"
  using setupExtractor_steps [OF assms]
    initsUntilFailure_Cons [of "extractorStep r (Source recipe)"
      "map (processorStep r) (Processors recipe) @ map (sinkStep r) (Sinks recipe)"]
  by (simp add: stepsOf_def)

lemma plugins_inits:
  assumes "setupProcessors r prs str = (evs2, res2)"
  shows "initsUntilFailure (map (processorStep r) prs @ map (sinkStep r) srs) =
     (if isl res2 then (evs2, False)
      else (evs2 @ fst (initsUntilFailure (map (sinkStep r) srs)),
            snd (initsUntilFailure (map (sinkStep r) srs))))"
  using setupProcessors_steps [OF assms]
  by (simp add: initsUntilFailure_append)

lemma RunSched_trace:
  "\<exists>mid. snd (RunSched sch r recipe) =
       Log Info ''running recipe'' # fst (initsUntilFailure (stepsOf r recipe)) @ mid @
       logAndRecordMetrics r (fst (RunSched sch r recipe)) (timerFn r () ()) \<and>
     (\<forall>e\<in>set mid. streamEvent e) \<and>
     (if snd (initsUntilFailure (stepsOf r recipe))
      then \<exists>rest. mid = Extract (src_Type (Source recipe)) # rest
      else mid = [])"
proof -
  obtain evs1 res1 where s1: "setupExtractor r (Source recipe) = (evs1, res1)"
    by (cases "setupExtractor r (Source recipe)") auto
  note st1 = stepsOf_inits [OF s1]
  show ?thesis
  proof (cases res1)
    case (Inl e)
    with s1 st1 show ?thesis
      by (simp add: RunSched_def deferred_def Let_def)
  next
    case rx: (Inr rx)
    obtain evs2 res2 where s2: "setupProcessors r (Processors recipe) newStream = (evs2, res2)"
      by (cases "setupProcessors r (Processors recipe) newStream") auto
    note st2 = plugins_inits [OF s2, of "Sinks recipe"]
    show ?thesis
    proof (cases res2)
      case (Inl e)
      with s1 st1 rx s2 st2 show ?thesis
        by (simp add: RunSched_def deferred_def Let_def)
    next
      case str2: (Inr str2)
      have a2: "agentStream str2"
        using setupProcessors_agent [OF newStream_agent] s2 str2 by simp
      obtain evs3 res3 where s3: "setupSinks r (Sinks recipe) str2 = (evs3, res3)"
        by (cases "setupSinks r (Sinks recipe) str2") auto
      note st3 = setupSinks_steps [OF s3]
      show ?thesis
      proof (cases res3)
        case (Inl e)
        with s1 st1 rx s2 st2 str2 s3 st3 show ?thesis
          by (simp add: RunSched_def deferred_def Let_def)
      next
        case str3: (Inr str3)
        have a3: "agentStream str3"
          using setupSinks_agent [OF a2] s3 str3 by simp
        obtain run' evs4 where rs: "runStream sch recipe (newRun recipe) rx str3 = (run', evs4)"
          by (cases "runStream sch recipe (newRun recipe) rx str3") auto
        from runStream_events [OF a3 rs] have e4: "\<forall>e\<in>set evs4. streamEvent e" .
        from runStream_starts [OF rs] obtain rest
          where r4: "evs4 = Extract (src_Type (Source recipe)) # rest" by blast
        from s1 st1 rx s2 st2 str2 s3 st3 str3 rs
        have "snd (RunSched sch r recipe) =
            Log Info ''running recipe'' # fst (initsUntilFailure (stepsOf r recipe)) @ evs4 @
            logAndRecordMetrics r (fst (RunSched sch r recipe)) (timerFn r () ())"
          and "snd (initsUntilFailure (stepsOf r recipe))"
          by (simp_all add: RunSched_def deferred_def Let_def)
        with e4 r4 show ?thesis by auto
      qed
    qed
  qed
qed

lemma Run_trace:
  "\<exists>mid. snd (Run r recipe) =
       Log Info ''running recipe'' # fst (initsUntilFailure (stepsOf r recipe)) @ mid @
       logAndRecordMetrics r (fst (Run r recipe)) (timerFn r () ()) \<and>
     (\<forall>e\<in>set mid. streamEvent e) \<and>
     (if snd (initsUntilFailure (stepsOf r recipe))
      then \<exists>rest. mid = Extract (src_Type (Source recipe)) # rest
      else mid = [])"
  using RunSched_trace [of ExtractorFirst r recipe] by (simp add: Run_def)

section \<open>The result of Run\<close>

lemma extractorGoroutine_run:
  "extractorGoroutine recipe run rx sn = (run', sn', evs) \<Longrightarrow>
     DurationInMs run' = DurationInMs run \<and> run_Recipe run' = run_Recipe run \<and>
     RecordCount run' = RecordCount run \<and> Success run' = Success run"
  by (auto simp: extractorGoroutine_def Let_def
      split: prod.splits extract_end.splits option.splits)

lemma runStream_success:
  "runStream sch recipe run rx str = (run', evs) \<Longrightarrow> Success run' = (Error run' = None)"
  by (auto simp: runStream_def Let_def split: prod.splits option.splits schedule.splits)

lemma runStream_duration:
  "runStream sch recipe run rx str = (run', evs) \<Longrightarrow> DurationInMs run' = DurationInMs run"
  by (auto simp: runStream_def Let_def split: prod.splits option.splits schedule.splits
      dest: extractorGoroutine_run)

text \<open>
  C4. On every path out of \<open>Run\<close> (a failed set-up of the extractor, of a processor or of
  a sink, a failed or panicking extractor, a failed processor, success), the run returned
  has \<open>Success\<close> true exactly when its \<open>Error\<close> is nil.
\<close>

theorem Run_success_iff_no_error:
  "Success (fst (Run r recipe)) = (Error (fst (Run r recipe)) = None)"
  by (auto simp: Run_def RunSched_def deferred_def newRun_def Let_def
      split: prod.splits sum.splits dest: runStream_success)

theorem Run_success_iff_no_error_witness:
  "Success (fst (Run (testAgent (mockExtractor [''a'', ''b''] (Returns None)) mockProcessor
       (mockSink None) False) validRecipe)) \<and>
   Error (fst (Run (testAgent (mockExtractor [''a'', ''b''] (Returns None)) mockProcessor
       (mockSink None) False) validRecipe)) = None \<and>
   \<not> Success (fst (Run (testAgent (mockExtractor [''a''] (Panics (PString ''panicking'')))
       mockProcessor (mockSink None) False) validRecipe)) \<and>
   Error (fst (Run (testAgent (mockExtractor [''a''] (Panics (PString ''panicking'')))
       mockProcessor (mockSink None) False) validRecipe)) = Some (New ''panicking'')"
proof -
  have "Error (fst (Run (testAgent (mockExtractor [''a'', ''b''] (Returns None))
      mockProcessor (mockSink None) False) validRecipe)) = None"
    by (simp add: run_defs test_defs)
  moreover have "Error (fst (Run (testAgent (mockExtractor [''a''] (Panics (PString ''panicking'')))
       mockProcessor (mockSink None) False) validRecipe)) = Some (New ''panicking'')"
    by (simp add: run_defs test_defs)
  ultimately show ?thesis
    using Run_success_iff_no_error
      [of "testAgent (mockExtractor [''a'', ''b''] (Returns None)) mockProcessor
         (mockSink None) False" validRecipe]
      Run_success_iff_no_error
      [of "testAgent (mockExtractor [''a''] (Panics (PString ''panicking''))) mockProcessor
         (mockSink None) False" validRecipe]
    by simp
qed

text \<open>
  C5, at a run of \<open>validRecipe\<close> with a timer that returns 1000: the run given to the
  monitor has \<open>DurationInMs = 1000\<close>, and the run returned to the caller has
  \<open>DurationInMs = 0\<close>, because \<open>logAndRecordMetrics\<close> sets the duration on its own copy.
\<close>

theorem Run_returned_duration_is_zero:
  "timerFn (testAgent (mockExtractor [''a''] (Returns None)) mockProcessor (mockSink None)
      False) () () = 1000 \<and>
   map DurationInMs (recorded (snd (Run (testAgent (mockExtractor [''a''] (Returns None))
      mockProcessor (mockSink None) False) validRecipe))) = [1000] \<and>
   DurationInMs (fst (Run (testAgent (mockExtractor [''a''] (Returns None)) mockProcessor
      (mockSink None) False) validRecipe)) = 0"
  by (simp add: run_defs test_defs)

text \<open>
  C1, at a run of \<open>validRecipe\<close> whose extractor emits one record on which the processor
  fails: one record was emitted, and \<open>RecordCount\<close> is 0, because the counting middleware
  is the last of the chain and the failed processor short-circuits it.
\<close>

theorem Run_record_count_misses_failed_record:
  "emitted (snd (Run (testAgent (mockExtractor [''a''] (Returns None))
      (failingProcessor ''a'') (mockSink None) False) validRecipe)) = [''a''] \<and>
   RecordCount (fst (Run (testAgent (mockExtractor [''a''] (Returns None))
      (failingProcessor ''a'') (mockSink None) False) validRecipe)) = 0"
  by (simp add: run_defs test_defs)

text \<open>
  C2, at a recipe whose only sink is not registered: the one error entry that \<open>Validate\<close>
  returns for the missing sink is annotated with the type of the source and the role of
  an extractor, not with the name of the sink and the role of a sink.
\<close>

theorem Validate_missing_sink_annotation:
  "Validate (testAgent (mockExtractor [] (Returns None)) mockProcessor (mockSink None)
      False) missingSinkRecipe =
   [Wrap (New ''could not find plugin'') ''invalid config for test-extractor (extractor)'']"
  by (simp add: Validate_def validateSource_def Wrapf_invalid_def test_defs)


section \<open>The trace of Run\<close>

lemmas step_defs = stepsOf_def extractorStep_def processorStep_def sinkStep_def lookupInit_def

lemma streamEvent_not_Init: "streamEvent e \<Longrightarrow> \<not> isInit e"
  by (cases e) auto

lemma recorded_append: "recorded (xs @ ys) = recorded xs @ recorded ys"
  by (induction xs rule: recorded.induct) auto

lemma recorded_Init: "\<forall>e\<in>set evs. isInit e \<Longrightarrow> recorded evs = []"
  by (induction evs rule: recorded.induct) auto

lemma recorded_streamEvent: "\<forall>e\<in>set evs. streamEvent e \<Longrightarrow> recorded evs = []"
  by (induction evs rule: recorded.induct) auto

text \<open>
  C7. In the effects of \<open>Run\<close>, the \<open>Init\<close> calls are those of the specified order
  (the extractor, every processor in recipe order, every sink, up to the first plugin that
  is not found or whose \<open>Init\<close> fails); no \<open>Init\<close> follows them; \<open>Extract\<close> is called
  right after them when every plugin was set up, and neither \<open>Extract\<close> nor an emitted
  record appears when the set-up failed.
\<close>

theorem Run_init_order:
  "\<exists>post. snd (Run r recipe) =
       Log Info ''running recipe'' # fst (initsUntilFailure (stepsOf r recipe)) @ post \<and>
     (\<forall>e\<in>set (fst (initsUntilFailure (stepsOf r recipe))). isInit e) \<and>
     (\<forall>e\<in>set post. \<not> isInit e) \<and>
     (if snd (initsUntilFailure (stepsOf r recipe))
      then \<exists>rest. post = Extract (src_Type (Source recipe)) # rest
      else \<forall>e\<in>set post. \<not> isExtraction e)"
proof -
  let ?fin = "logAndRecordMetrics r (fst (Run r recipe)) (timerFn r () ())"
  from Run_trace [of r recipe] obtain mid where
    tr: "snd (Run r recipe) =
       Log Info ''running recipe'' # fst (initsUntilFailure (stepsOf r recipe)) @ mid @ ?fin"
    and mid: "\<forall>e\<in>set mid. streamEvent e"
    and ok: "if snd (initsUntilFailure (stepsOf r recipe))
      then \<exists>rest. mid = Extract (src_Type (Source recipe)) # rest
      else mid = []"
    by blast
  have fin: "\<forall>e\<in>set ?fin. \<not> isInit e \<and> \<not> isExtraction e"
    by (simp add: logAndRecordMetrics_def Let_def)
  have "snd (Run r recipe) =
       Log Info ''running recipe'' # fst (initsUntilFailure (stepsOf r recipe)) @ (mid @ ?fin)"
    using tr by simp
  moreover have "\<forall>e\<in>set (mid @ ?fin). \<not> isInit e"
    using mid fin streamEvent_not_Init by auto
  moreover have "if snd (initsUntilFailure (stepsOf r recipe))
      then \<exists>rest. mid @ ?fin = Extract (src_Type (Source recipe)) # rest
      else \<forall>e\<in>set (mid @ ?fin). \<not> isExtraction e"
    using ok fin by (auto split: if_splits)
  ultimately show ?thesis
    using initsUntilFailure_isInit [of "stepsOf r recipe"] by blast
qed

theorem Run_init_order_witness:
  "(\<exists>post. snd (Run (testAgent (mockExtractor [''a''] (Returns None)) initFailingProcessor
        (mockSink None) False) validRecipe) =
      Log Info ''running recipe'' #
      [Init PluginTypeExtractor ''test-extractor'',
       Init PluginTypeProcessor ''test-processor''] @ post \<and>
      Init PluginTypeSink ''test-sink'' \<notin> set post \<and>
      Extract ''test-extractor'' \<notin> set post \<and> Emit ''a'' \<notin> set post) \<and>
   (\<exists>rest. snd (Run (testAgent (mockExtractor [''a''] (Returns None)) mockProcessor
        (mockSink None) False) validRecipe) =
      Log Info ''running recipe'' #
      [Init PluginTypeExtractor ''test-extractor'',
       Init PluginTypeProcessor ''test-processor'', Init PluginTypeSink ''test-sink''] @
      Extract ''test-extractor'' # rest \<and>
      Init PluginTypeSink ''test-sink'' \<notin> set rest)"
proof
  let ?A = "testAgent (mockExtractor [''a''] (Returns None)) initFailingProcessor
        (mockSink None) False"
  have 1: "initsUntilFailure (stepsOf ?A validRecipe) =
      ([Init PluginTypeExtractor ''test-extractor'',
        Init PluginTypeProcessor ''test-processor''], False)"
    by (simp add: step_defs test_defs)
  from Run_init_order [of ?A validRecipe] obtain post where
    tr: "snd (Run ?A validRecipe) =
       Log Info ''running recipe'' # fst (initsUntilFailure (stepsOf ?A validRecipe)) @ post"
    and ni: "\<forall>e\<in>set post. \<not> isInit e"
    and ne: "if snd (initsUntilFailure (stepsOf ?A validRecipe))
      then \<exists>rest. post = Extract (src_Type (Source validRecipe)) # rest
      else \<forall>e\<in>set post. \<not> isExtraction e"
    by blast
  from ne have ne': "\<forall>e\<in>set post. \<not> isExtraction e" by (simp add: 1)
  have "Init PluginTypeSink ''test-sink'' \<notin> set post" using ni by force
  moreover have "Extract ''test-extractor'' \<notin> set post" using ne' by force
  moreover have "Emit ''a'' \<notin> set post" using ne' by force
  ultimately show "\<exists>post. snd (Run ?A validRecipe) =
      Log Info ''running recipe'' #
      [Init PluginTypeExtractor ''test-extractor'',
       Init PluginTypeProcessor ''test-processor''] @ post \<and>
      Init PluginTypeSink ''test-sink'' \<notin> set post \<and>
      Extract ''test-extractor'' \<notin> set post \<and> Emit ''a'' \<notin> set post"
    using tr unfolding 1 fst_conv by blast
next
  let ?A = "testAgent (mockExtractor [''a''] (Returns None)) mockProcessor
        (mockSink None) False"
  have 2: "initsUntilFailure (stepsOf ?A validRecipe) =
      ([Init PluginTypeExtractor ''test-extractor'',
        Init PluginTypeProcessor ''test-processor'', Init PluginTypeSink ''test-sink''], True)"
    by (simp add: step_defs test_defs)
  have src: "src_Type (Source validRecipe) = ''test-extractor''"
    by (simp add: validRecipe_def)
  from Run_init_order [of ?A validRecipe] obtain post where
    tr: "snd (Run ?A validRecipe) =
       Log Info ''running recipe'' # fst (initsUntilFailure (stepsOf ?A validRecipe)) @ post"
    and ni: "\<forall>e\<in>set post. \<not> isInit e"
    and ne: "if snd (initsUntilFailure (stepsOf ?A validRecipe))
      then \<exists>rest. post = Extract (src_Type (Source validRecipe)) # rest
      else \<forall>e\<in>set post. \<not> isExtraction e"
    by blast
  from ne obtain rest where rest: "post = Extract ''test-extractor'' # rest"
    by (auto simp: 2 src)
  have "Init PluginTypeSink ''test-sink'' \<notin> set rest" using ni rest by force
  then show "\<exists>rest. snd (Run ?A validRecipe) =
      Log Info ''running recipe'' #
      [Init PluginTypeExtractor ''test-extractor'',
       Init PluginTypeProcessor ''test-processor'', Init PluginTypeSink ''test-sink''] @
      Extract ''test-extractor'' # rest \<and>
      Init PluginTypeSink ''test-sink'' \<notin> set rest"
    using tr rest unfolding 2 fst_conv by blast
qed


text \<open>
  C8. On every path out of \<open>Run\<close>, \<open>monitor.RecordRun\<close> is called exactly once, by the
  deferred function, with the run that is returned (carrying the duration of the timer).
\<close>

theorem Run_records_run_once:
  "recorded (snd (Run r recipe)) = [(fst (Run r recipe))\<lparr>DurationInMs := timerFn r () ()\<rparr>]"
proof -
  from Run_trace [of r recipe] obtain mid where
    tr: "snd (Run r recipe) =
       Log Info ''running recipe'' # fst (initsUntilFailure (stepsOf r recipe)) @ mid @
       logAndRecordMetrics r (fst (Run r recipe)) (timerFn r () ())"
    and mid: "\<forall>e\<in>set mid. streamEvent e"
    by blast
  show ?thesis
    unfolding tr
    by (simp add: recorded_append recorded_Init [OF initsUntilFailure_isInit]
        recorded_streamEvent [OF mid] logAndRecordMetrics_def Let_def)
qed

theorem Run_records_run_once_witness:
  "map Error (recorded (snd (Run (testAgent (mockExtractor [''a''] (Panics (PString ''panicking'')))
        mockProcessor (mockSink None) False) validRecipe))) = [Some (New ''panicking'')] \<and>
   map DurationInMs (recorded (snd (Run (testAgent (mockExtractor [''a''] (Panics (PString ''panicking'')))
        mockProcessor (mockSink None) False) validRecipe))) = [1000] \<and>
   map Success (recorded (snd (Run (testAgent (mockExtractor [''a''] (Panics (PString ''panicking'')))
        mockProcessor (mockSink None) False) validRecipe))) = [False]"
proof -
  have "Error (fst (Run (testAgent (mockExtractor [''a''] (Panics (PString ''panicking'')))
        mockProcessor (mockSink None) False) validRecipe)) = Some (New ''panicking'')"
    by (simp add: run_defs test_defs)
  moreover have "\<not> Success (fst (Run (testAgent (mockExtractor [''a''] (Panics (PString ''panicking'')))
        mockProcessor (mockSink None) False) validRecipe))"
    by (simp add: run_defs test_defs)
  moreover have "timerFn (testAgent (mockExtractor [''a''] (Panics (PString ''panicking'')))
        mockProcessor (mockSink None) False) () () = 1000"
    by (simp add: testAgent_def)
  ultimately show ?thesis
    unfolding Run_records_run_once [of "testAgent (mockExtractor [''a''] (Panics (PString ''panicking'')))
        mockProcessor (mockSink None) False" validRecipe]
    by simp
qed




section \<open>RunMultiple\<close>

lemma runEach_fst:
  "i + length recipes \<le> length runs \<Longrightarrow>
     fst (runEach r i recipes (runs, evs)) =
     take i runs @ map (\<lambda>recipe. fst (Run r recipe)) recipes @ drop (i + length recipes) runs"
proof (induction recipes arbitrary: i runs evs)
  case Nil
  then show ?case by simp
next
  case (Cons recipe rest)
  obtain run evs' where rn: "Run r recipe = (run, evs')" by (cases "Run r recipe") auto
  from Cons.prems have i: "i < length runs" and le: "Suc i + length rest \<le> length (runs[i := run])"
    by simp_all
  have tk: "take (Suc i) (runs[i := run]) = take i runs @ [run]"
    using i by (simp add: take_Suc_conv_app_nth)
  have dr: "drop (Suc i + length rest) (runs[i := run]) = drop (Suc i + length rest) runs"
    by simp
  from Cons.IH [OF le, of "evs @ evs'"] rn tk dr show ?case by simp
qed

lemma RunMultiple_map:
  "fst (RunMultiple r recipes) = map (\<lambda>recipe. fst (Run r recipe)) recipes"
  by (simp add: RunMultiple_def runEach_fst)

text \<open>
  C9. \<open>RunMultiple\<close> returns one run per recipe, in the order of the input: the run of
  index \<open>i\<close> is the run of the recipe of index \<open>i\<close>. It depends on no other recipe:
  replacing another recipe of the list (by one that fails, or by any other) leaves it
  as it is.
\<close>

theorem RunMultiple_in_order_isolated:
  "length (fst (RunMultiple r recipes)) = length recipes \<and>
   (\<forall>i<length recipes. fst (RunMultiple r recipes) ! i = fst (Run r (recipes ! i))) \<and>
   (\<forall>i j recipe'. i < length recipes \<and> j < length recipes \<and> i \<noteq> j \<longrightarrow>
      fst (RunMultiple r (recipes[j := recipe'])) ! i = fst (RunMultiple r recipes) ! i)"
  by (simp add: RunMultiple_map)



theorem RunMultiple_in_order_isolated_witness:
  "length (fst (RunMultiple (testAgent (mockExtractor [''a''] (Returns None))
       mockProcessor (mockSink None) False) [validRecipe, failingRecipe])) = 2 \<and>
   Success (fst (RunMultiple (testAgent (mockExtractor [''a''] (Returns None))
       mockProcessor (mockSink None) False) [validRecipe, failingRecipe]) ! 0) \<and>
   \<not> Success (fst (RunMultiple (testAgent (mockExtractor [''a''] (Returns None))
       mockProcessor (mockSink None) False) [validRecipe, failingRecipe]) ! 1) \<and>
   \<not> Success (fst (RunMultiple (testAgent (mockExtractor [''a''] (Returns None))
       mockProcessor (mockSink None) False) [failingRecipe, validRecipe]) ! 0) \<and>
   Success (fst (RunMultiple (testAgent (mockExtractor [''a''] (Returns None))
       mockProcessor (mockSink None) False) [failingRecipe, validRecipe]) ! 1)"
proof -
  let ?A = "testAgent (mockExtractor [''a''] (Returns None)) mockProcessor (mockSink None) False"
  have ok: "Success (fst (Run ?A validRecipe))"
    by (simp add: run_defs test_defs)
  have bad: "\<not> Success (fst (Run ?A failingRecipe))"
    by (simp add: run_defs test_defs)
  note t1 = RunMultiple_in_order_isolated [of ?A "[validRecipe, failingRecipe]"]
  note t2 = RunMultiple_in_order_isolated [of ?A "[failingRecipe, validRecipe]"]
  from t1 have len: "length (fst (RunMultiple ?A [validRecipe, failingRecipe])) = 2"
    by simp
  from t1 have a0: "fst (RunMultiple ?A [validRecipe, failingRecipe]) ! 0 = fst (Run ?A validRecipe)"
    by simp
  from t1 have a1: "fst (RunMultiple ?A [validRecipe, failingRecipe]) ! 1 = fst (Run ?A failingRecipe)"
    by simp
  from t2 have b0: "fst (RunMultiple ?A [failingRecipe, validRecipe]) ! 0 = fst (Run ?A failingRecipe)"
    by simp
  from t2 have b1: "fst (RunMultiple ?A [failingRecipe, validRecipe]) ! 1 = fst (Run ?A validRecipe)"
    by simp
  show ?thesis
    unfolding a0 a1 b0 b1 using len ok bad by simp
qed

section \<open>The batch size of the sinks\<close>

lemma setupSink_subscribes:
  "setupSink r sr str = (evs, Inr str') \<Longrightarrow>
     \<exists>fn. subscribers str' = subscribers str @ [\<lparr>callback = fn, batchSize = 1, batch = []\<rparr>]"
  by (auto simp: setupSink_def subscribe_def onClose_def defaultBatchSize_def
      split: sum.splits option.splits)

lemma setupSinks_batchSize:
  "setupSinks r srs str = (evs, Inr str') \<Longrightarrow>
     length (subscribers str') = length (subscribers str) + length srs \<and>
     (\<forall>l\<in>set (subscribers str'). l \<in> set (subscribers str) \<or> batchSize l = 1)"
proof (induction srs arbitrary: str evs)
  case Nil
  then show ?case by simp
next
  case (Cons sr srs)
  obtain evs1 res1 where s1: "setupSink r sr str = (evs1, res1)"
    by (cases "setupSink r sr str") auto
  with Cons.prems obtain str1 where r1: "res1 = Inr str1"
    by (cases res1) auto
  obtain evs2 res2 where s2: "setupSinks r srs str1 = (evs2, res2)"
    by (cases "setupSinks r srs str1") auto
  with Cons.prems s1 r1 have r2: "res2 = Inr str'" by simp
  from setupSink_subscribes [OF s1 [unfolded r1]] obtain fn where
    sub: "subscribers str1 = subscribers str @ [\<lparr>callback = fn, batchSize = 1, batch = []\<rparr>]"
    by blast
  from Cons.IH [OF s2 [unfolded r2]] sub show ?case by auto
qed

text \<open>
  C10. The batch size is the constant 1: every call of \<open>Sink\<close> in a run is on a batch of
  exactly one record, whatever the agent and the recipe, and every subscriber that the
  set-up of the sinks registers has batch size 1, one subscriber per sink.
\<close>

theorem sinks_batch_size_one:
  "defaultBatchSize = 1 \<and>
   (\<forall>name b. SinkCall name b \<in> set (snd (Run r recipe)) \<longrightarrow> length b = defaultBatchSize) \<and>
   (\<forall>srs str evs str'. setupSinks r srs str = (evs, Inr str') \<and> subscribers str = [] \<longrightarrow>
      length (subscribers str') = length srs \<and>
      (\<forall>l\<in>set (subscribers str'). batchSize l = defaultBatchSize))"
proof -
  from Run_trace [of r recipe] obtain mid where
    tr: "snd (Run r recipe) =
       Log Info ''running recipe'' # fst (initsUntilFailure (stepsOf r recipe)) @ mid @
       logAndRecordMetrics r (fst (Run r recipe)) (timerFn r () ())"
    and mid: "\<forall>e\<in>set mid. streamEvent e"
    by blast
  have "length b = 1" if "SinkCall name b \<in> set (snd (Run r recipe))" for name b
  proof -
    from that have "SinkCall name b \<in> set (fst (initsUntilFailure (stepsOf r recipe))) \<or>
        SinkCall name b \<in> set mid"
      unfolding tr by (auto simp: logAndRecordMetrics_def Let_def)
    then show ?thesis
    proof
      assume "SinkCall name b \<in> set (fst (initsUntilFailure (stepsOf r recipe)))"
      with initsUntilFailure_isInit [of "stepsOf r recipe"] have "isInit (SinkCall name b)"
        by blast
      then show ?thesis by simp
    next
      assume "SinkCall name b \<in> set mid"
      with mid have "streamEvent (SinkCall name b)" by blast
      then show ?thesis by simp
    qed
  qed
  moreover have "length (subscribers str') = length srs \<and>
      (\<forall>l\<in>set (subscribers str'). batchSize l = 1)"
    if "setupSinks r srs str = (evs, Inr str')" and "subscribers str = []"
    for srs str evs str'
    using setupSinks_batchSize [OF that(1)] that(2) by auto
  ultimately show ?thesis
    unfolding defaultBatchSize_def by blast
qed



theorem sinks_batch_size_one_witness:
  "SinkCall ''test-sink'' [''a''] \<in> set (snd (Run (testAgent (mockExtractor [''a'', ''b'']
      (Returns None)) mockProcessor (mockSink None) False) validRecipe)) \<and>
   SinkCall ''test-sink'' [''b''] \<in> set (snd (Run (testAgent (mockExtractor [''a'', ''b'']
      (Returns None)) mockProcessor (mockSink None) False) validRecipe)) \<and>
   SinkCall ''test-sink'' [''a'', ''b''] \<notin> set (snd (Run (testAgent
      (mockExtractor [''a'', ''b''] (Returns None)) mockProcessor (mockSink None) False)
      validRecipe))"
proof -
  let ?A = "testAgent (mockExtractor [''a'', ''b''] (Returns None)) mockProcessor
      (mockSink None) False"
  have "SinkCall ''test-sink'' [''a''] \<in> set (snd (Run ?A validRecipe))"
    by (simp add: run_defs test_defs)
  moreover have "SinkCall ''test-sink'' [''b''] \<in> set (snd (Run ?A validRecipe))"
    by (simp add: run_defs test_defs)
  moreover have "SinkCall ''test-sink'' [''a'', ''b''] \<notin> set (snd (Run ?A validRecipe))"
  proof
    assume "SinkCall ''test-sink'' [''a'', ''b''] \<in> set (snd (Run ?A validRecipe))"
    with sinks_batch_size_one [of ?A validRecipe, THEN conjunct2, THEN conjunct1]
    have "length [''a'', ''b''] = defaultBatchSize" by blast
    then show False by (simp add: defaultBatchSize_def)
  qed
  ultimately show ?thesis by blast
qed


section \<open>Errors of the sinks\<close>














subsection \<open>Sink errors that stop the run\<close>


lemma sinkErrorLogged_Nil [simp]: "\<not> sinkErrorLogged []"
  by (simp add: sinkErrorLogged_def)

lemma firstErr_simps [simp]:
  "firstErr (Some y) z = Some y" "firstErr None z = z"
  by (simp_all add: firstErr_def)


lemma firstErr_Some_right [simp]: "\<exists>y. firstErr x (Some e) = Some y"
  by (cases x) auto









lemma sinkErrorLogged_Cons_Emit [simp]: "sinkErrorLogged (Emit d # evs) = sinkErrorLogged evs"
  by (simp add: sinkErrorLogged_def)



lemma sinkErrorLogged_Cons_Extract [simp]:
  "sinkErrorLogged (Extract name # evs) = sinkErrorLogged evs"
  by (simp add: sinkErrorLogged_def)





subsection \<open>Sink errors that are dropped\<close>














section \<open>A panic of the extractor\<close>













end
